theory Spec2Isabelle
  imports Main "HOL-Library.Multiset"
begin

section \<open>Python values used by \<open>app.py\<close>\<close>

text \<open>
  Strings are lists of characters. The exceptions that the modelled code can raise are
  values: \<open>IndexError\<close> for a list index out of range, \<open>BadRequestKeyError\<close> for a
  missing form field (\<open>request.form['title']\<close>), \<open>IOError\<close> for a failed file
  operation and \<open>OperationalError\<close> for a failed SQLite statement.
\<close>

datatype py_error = IndexError | BadRequestKeyError | IOError | OperationalError

definition py_index :: "'a list \<Rightarrow> nat \<Rightarrow> py_error + 'a" where
  \<comment> \<open>\<open>xs[i]\<close> for a non-negative index.\<close>
  "py_index xs i = (if i < length xs then Inr (xs ! i) else Inl IndexError)"

definition rsplit1 :: "char \<Rightarrow> string \<Rightarrow> string list" where
  \<comment> \<open>\<open>s.rsplit(sep, 1)\<close>: at most one split, at the last occurrence of \<open>sep\<close>.\<close>
  "rsplit1 sep s =
     (if sep \<in> set s
      then [rev (tl (dropWhile (\<lambda>c. c \<noteq> sep) (rev s))),
            rev (takeWhile (\<lambda>c. c \<noteq> sep) (rev s))]
      else [s])"

definition lower_char :: "char \<Rightarrow> char" where
  \<comment> \<open>\<open>str.lower\<close> on one character: the 26 ASCII capitals change, nothing else does
      (no character outside ASCII lowercases to a letter or digit alone, so membership
      in the allow-list is not affected).\<close>
  "lower_char c =
     (case map_of (zip ''ABCDEFGHIJKLMNOPQRSTUVWXYZ'' ''abcdefghijklmnopqrstuvwxyz'') c of
        Some l \<Rightarrow> l
      | None \<Rightarrow> c)"

definition lower :: "string \<Rightarrow> string" where
  "lower s = map lower_char s"

section \<open>Configuration (lines 13-16)\<close>

definition UPLOAD_FOLDER :: string where
  "UPLOAD_FOLDER = ''static/uploads''"

definition ALLOWED_EXTENSIONS :: "string set" where
  "ALLOWED_EXTENSIONS = {''mp4'', ''avi'', ''mov'', ''wmv'', ''flv'', ''webm''}"

section \<open>\<open>allowed_file\<close> (lines 42-44)\<close>

text \<open>
  \<^verbatim>\<open>return '.' in filename and filename.rsplit('.', 1)[1].lower() in ALLOWED_EXTENSIONS\<close>

  The \<open>and\<close> is short-circuit: the index \<open>[1]\<close> is evaluated only when the name has a
  dot. The index is kept as a possible \<open>IndexError\<close>, which \<open>allowed_file_returns\<close>
  below shows never happens.
\<close>

definition allowed_file :: "string \<Rightarrow> py_error + bool" where
  "allowed_file fname =
     (if CHR ''.'' \<in> set fname
      then (case py_index (rsplit1 (CHR ''.'') fname) 1 of
              Inl e \<Rightarrow> Inl e
            | Inr ext \<Rightarrow> Inr (lower ext \<in> ALLOWED_EXTENSIONS))
      else Inr False)"

text \<open>
  The spec's words for the same check, written without \<open>lower\<close>: a character is a
  letter "in any case" when it is that character or, for a lowercase letter, its capital;
  a string is an extension in any case when it is so character by character.
\<close>

definition letter_in_any_case :: "char \<Rightarrow> char \<Rightarrow> bool" where
  "letter_in_any_case c l \<longleftrightarrow>
     c = l \<or> (c, l) \<in> set (zip ''ABCDEFGHIJKLMNOPQRSTUVWXYZ'' ''abcdefghijklmnopqrstuvwxyz'')"

definition in_any_case :: "string \<Rightarrow> string \<Rightarrow> bool" where
  "in_any_case ext a \<longleftrightarrow> list_all2 letter_in_any_case ext a"

section \<open>The storage name (lines 197-199)\<close>

text \<open>
  \<open>datetime.now()\<close> is an input of the upload: a naive local date and time. The
  format \<open>'%Y%m%d_%H%M%S'\<close> writes the year with four digits and the other fields with
  two, zero-padded.
\<close>

record datetime =
  year :: nat
  month :: nat
  day :: nat
  hour :: nat
  minute :: nat
  second :: nat
  microsecond :: nat

definition digit_char :: "nat \<Rightarrow> char" where
  "digit_char n = ''0123456789'' ! (n mod 10)"

definition dec2 :: "nat \<Rightarrow> string" where
  "dec2 n = [digit_char (n div 10), digit_char n]"

definition dec4 :: "nat \<Rightarrow> string" where
  "dec4 n = [digit_char (n div 1000), digit_char (n div 100), digit_char (n div 10), digit_char n]"

definition strftime_Ymd_HMS :: "datetime \<Rightarrow> string" where
  \<comment> \<open>\<open>d.strftime('%Y%m%d_%H%M%S')\<close>\<close>
  "strftime_Ymd_HMS d =
     dec4 (year d) @ dec2 (month d) @ dec2 (day d) @ ''_''
       @ dec2 (hour d) @ dec2 (minute d) @ dec2 (second d)"

definition valid_datetime :: "datetime \<Rightarrow> bool" where
  \<comment> \<open>The field ranges of a \<open>datetime\<close>, with a year of four digits (for a shorter
      year the padding of \<open>%Y\<close> depends on the platform).\<close>
  "valid_datetime d \<longleftrightarrow>
     1000 \<le> year d \<and> year d \<le> 9999 \<and> 1 \<le> month d \<and> month d \<le> 12 \<and>
     1 \<le> day d \<and> day d \<le> 31 \<and> hour d < 24 \<and> minute d < 60 \<and> second d < 60 \<and>
     microsecond d < 1000000"

definition same_second :: "datetime \<Rightarrow> datetime \<Rightarrow> bool" where
  \<comment> \<open>Two clock readings that agree down to the second.\<close>
  "same_second a b \<longleftrightarrow>
     year a = year b \<and> month a = month b \<and> day a = day b \<and>
     hour a = hour b \<and> minute a = minute b \<and> second a = second b"

subsection \<open>\<open>secure_filename\<close>\<close>

text \<open>
  Modelled from the spec: \<open>secure_filename\<close> is imported from werkzeug (line 3) and is
  not part of the repository's source. The spec (4.2) says of it that it "sanitizes the
  original name to remove path separators and unsafe characters". The model follows the
  library's documented steps on a POSIX host: characters outside ASCII are dropped, \<open>/\<close>
  becomes a space, the words between whitespace are joined by \<open>_\<close>, every character
  outside \<open>A-Z a-z 0-9 _ . -\<close> is deleted, and leading and trailing \<open>.\<close> and \<open>_\<close> are
  stripped. (The library first decomposes compatibility characters; strings here are
  byte strings, so that step is the dropping of the bytes from 128 on.)
\<close>

definition ascii_ignore :: "string \<Rightarrow> string" where
  "ascii_ignore s = filter (\<lambda>c. (of_char c :: nat) < 128) s"

definition is_space :: "char \<Rightarrow> bool" where
  \<comment> \<open>The ASCII characters \<open>str.split()\<close> splits at: tab to carriage return, the
      separators 28 to 31, and the space.\<close>
  "is_space c \<longleftrightarrow> (of_char c :: nat) \<in> {9, 10, 11, 12, 13, 28, 29, 30, 31, 32}"

fun split_ws :: "string \<Rightarrow> string \<Rightarrow> string list" where
  \<comment> \<open>\<open>s.split()\<close>, with the word read so far as first argument.\<close>
  "split_ws cur [] = (if cur = [] then [] else [cur])"
| "split_ws cur (c # cs) =
     (if is_space c then (if cur = [] then split_ws [] cs else cur # split_ws [] cs)
      else split_ws (cur @ [c]) cs)"

fun join :: "string \<Rightarrow> string list \<Rightarrow> string" where
  \<comment> \<open>\<open>sep.join(words)\<close>\<close>
  "join sep [] = []"
| "join sep [w] = w"
| "join sep (w # ws) = w @ sep @ join sep ws"

definition safe_chars :: "char set" where
  "safe_chars = set ''ABCDEFGHIJKLMNOPQRSTUVWXYZabcdefghijklmnopqrstuvwxyz0123456789_.-''"

definition strip :: "string \<Rightarrow> string \<Rightarrow> string" where
  \<comment> \<open>\<open>s.strip(chars)\<close>\<close>
  "strip chars s =
     rev (dropWhile (\<lambda>c. c \<in> set chars) (rev (dropWhile (\<lambda>c. c \<in> set chars) s)))"

definition secure_filename :: "string \<Rightarrow> string" where
  "secure_filename fname =
     strip ''._''
       (filter (\<lambda>c. c \<in> safe_chars)
         (join ''_''
           (split_ws []
             (map (\<lambda>c. if c = CHR ''/'' then CHR '' '' else c) (ascii_ignore fname)))))"

definition storage_name :: "datetime \<Rightarrow> string \<Rightarrow> string" where
  \<comment> \<open>Lines 197 and 199: \<open>secure_filename\<close> first, then the timestamp prefix.\<close>
  "storage_name d fname = strftime_Ymd_HMS d @ ''_'' @ secure_filename fname"

subsection \<open>Paths\<close>

definition os_path_join :: "string \<Rightarrow> string \<Rightarrow> string" where
  \<comment> \<open>\<open>os.path.join(a, b)\<close> on POSIX: an absolute \<open>b\<close> replaces \<open>a\<close>.\<close>
  "os_path_join a b =
     (if b \<noteq> [] \<and> hd b = CHR ''/'' then b
      else if a = [] \<or> last a = CHR ''/'' then a @ b
      else a @ ''/'' @ b)"

fun split_on :: "char \<Rightarrow> string \<Rightarrow> string list" where
  \<comment> \<open>\<open>s.split(sep)\<close>\<close>
  "split_on sep [] = [[]]"
| "split_on sep (c # cs) =
     (if c = sep then [] # split_on sep cs
      else (case split_on sep cs of [] \<Rightarrow> [[c]] | w # ws \<Rightarrow> (c # w) # ws))"

fun resolve :: "string list \<Rightarrow> string list \<Rightarrow> string list" where
  \<comment> \<open>The components of a relative path, resolved left to right onto a stack (kept
      reversed): empty components and \<open>.\<close> are skipped, \<open>..\<close> leaves the last
      directory entered, or stays when there is none to leave.\<close>
  "resolve stack [] = rev stack"
| "resolve stack (c # cs) =
     (if c = [] \<or> c = ''.'' then resolve stack cs
      else if c = ''..'' then
        (case stack of
           [] \<Rightarrow> resolve [''..''] cs
         | t # ts \<Rightarrow> if t = ''..'' then resolve (''..'' # stack) cs else resolve ts cs)
      else resolve (c # stack) cs)"

definition path_components :: "string \<Rightarrow> string list" where
  \<comment> \<open>The directories a relative path walks through and the entry it ends at.\<close>
  "path_components p = resolve [] (split_on (CHR ''/'') p)"

section \<open>The state: session, table \<open>videos\<close>, files\<close>

text \<open>
  A row of \<open>videos\<close> (lines 51-57). \<open>upload_date\<close> is SQLite's
  \<open>CURRENT_TIMESTAMP\<close> at the insert, a text \<open>YYYY-MM-DD HH:MM:SS\<close>; it is kept as the
  number of that second, which orders the same way. \<open>featured\<close> is stored as 0 or 1.
\<close>

record video =
  video_id :: nat
  title :: string
  description :: string
  filename :: string
  upload_date :: nat
  featured :: bool

text \<open>
  What a request reads and writes: the session's \<open>admin_logged_in\<close> entry, the rows of
  \<open>videos\<close> in rowid order, the counter that \<open>AUTOINCREMENT\<close> keeps in
  \<open>sqlite_sequence\<close>, and the files, from path to content.
\<close>

record state =
  admin_logged_in :: bool
  videos :: "video list"
  sqlite_sequence :: nat
  files :: "string \<rightharpoonup> string"

text \<open>
  What a request gets from outside the program:
  \<^item> the clock: \<open>now\<close> is the reading of \<open>datetime.now()\<close>, a naive local time, and
    \<open>current_timestamp\<close> the second of SQLite's \<open>CURRENT_TIMESTAMP\<close>, which is UTC; the
    two are read independently, and a local clock that is set back (the end of daylight
    saving time) shows the same reading in two different seconds;
  \<^item> whether \<open>file.save\<close> raises, and then what it left behind: \<open>save_partial\<close> is
    \<open>None\<close> when the target could not be opened, and otherwise the bytes written before
    the failure (the target is opened for writing first, which creates or empties it, and
    nothing removes it afterwards);
  \<^item> whether \<open>os.remove\<close> raises;
  \<^item> whether opening the connection or a \<open>SELECT\<close> raises (\<open>sqlite_read_raises\<close>),
    and whether an \<open>INSERT\<close>, \<open>UPDATE\<close> or \<open>DELETE\<close> or its commit raises
    (\<open>sqlite_write_raises\<close>);
  \<^item> the order in which SQLite returns the rows of an \<open>ORDER BY upload_date DESC\<close>.
\<close>

record env =
  now :: datetime
  current_timestamp :: nat
  save_raises :: bool
  save_partial :: "string option"
  remove_raises :: bool
  sqlite_read_raises :: bool
  sqlite_write_raises :: bool
  order_by_upload_date_desc :: "video list \<Rightarrow> video list"

definition sql_order_by :: "(video list \<Rightarrow> video list) \<Rightarrow> bool" where
  \<comment> \<open>What SQL promises of \<open>ORDER BY upload_date DESC\<close>: the same rows, later dates
      first. The order of rows with equal dates is left to the engine.\<close>
  "sql_order_by ob \<longleftrightarrow>
     (\<forall>rows. mset (ob rows) = mset rows \<and>
             sorted_wrt (\<lambda>a b. upload_date b \<le> upload_date a) (ob rows))"

fun insert_desc :: "video \<Rightarrow> video list \<Rightarrow> video list" where
  "insert_desc v [] = [v]"
| "insert_desc v (w # ws) =
     (if upload_date w \<le> upload_date v then v # w # ws else w # insert_desc v ws)"

definition scan_order_sort :: "video list \<Rightarrow> video list" where
  \<comment> \<open>One engine: a stable sort of the table scan, so rows with equal dates keep
      rowid order.\<close>
  "scan_order_sort rows = foldr insert_desc rows []"

datatype endpoint = Admin_login | Admin_dashboard | Home

datatype response =
    Redirect endpoint
  | Render_template string "(string \<times> video list) list"
  | Raised py_error

text \<open>
  The result of a handler: the state after it, the messages it flashed (text and
  category), and the response; an exception that leaves the handler is \<open>Raised\<close>
  (Flask answers 400 for \<open>BadRequestKeyError\<close> and 500 for the others).
\<close>

record outcome =
  new_state :: state
  flashed :: "(string \<times> string) list"
  response :: response

record file_storage =
  fs_filename :: string
  fs_content :: string

record upload_request =
  files_video :: "file_storage option"
  form :: "string \<rightharpoonup> string"

section \<open>Listings (lines 78-129, 164-176)\<close>

definition format_videos :: "video list \<Rightarrow> video list" where
  \<comment> \<open>Lines 78-93 turn each row into a dictionary and parse its date text; the text
      SQLite wrote always parses, and the date is a number here, so rows stay as they
      are.\<close>
  "format_videos vs = map (\<lambda>video. video) vs"

definition home :: "env \<Rightarrow> state \<Rightarrow> response" where
  "home e s =
     (if sqlite_read_raises e then Raised OperationalError
      else
        let featured_videos =
              take 3 (order_by_upload_date_desc e (filter (\<lambda>v. featured v) (videos s)));
            recent_videos = take 6 (order_by_upload_date_desc e (videos s))
        in Render_template ''home.html''
             [(''featured_videos'', format_videos featured_videos),
              (''recent_videos'', format_videos recent_videos)])"

definition highlights :: "env \<Rightarrow> state \<Rightarrow> response" where
  "highlights e s =
     (if sqlite_read_raises e then Raised OperationalError
      else
        let featured_videos =
              order_by_upload_date_desc e (filter (\<lambda>v. featured v) (videos s));
            other_videos =
              order_by_upload_date_desc e (filter (\<lambda>v. \<not> featured v) (videos s))
        in Render_template ''highlights.html''
             [(''featured_videos'', format_videos featured_videos),
              (''other_videos'', format_videos other_videos)])"

definition admin_dashboard :: "env \<Rightarrow> state \<Rightarrow> response" where
  "admin_dashboard e s =
     (if \<not> admin_logged_in s then Redirect Admin_login
      else if sqlite_read_raises e then Raised OperationalError
      else Render_template ''admin_dashboard.html''
             [(''videos'', format_videos (order_by_upload_date_desc e (videos s)))])"

definition listing :: "response \<Rightarrow> string \<Rightarrow> video list option" where
  \<comment> \<open>The list a rendered page got under a name.\<close>
  "listing r name =
     (case r of Render_template t context \<Rightarrow> map_of context name | _ \<Rightarrow> None)"

section \<open>\<open>upload_video\<close> (lines 178-212)\<close>

definition next_rowid :: "state \<Rightarrow> nat" where
  \<comment> \<open>\<open>AUTOINCREMENT\<close>: one more than the largest id the table has ever held.\<close>
  "next_rowid s = Suc (fold max (map video_id (videos s)) (sqlite_sequence s))"

definition insert_video :: "env \<Rightarrow> string \<Rightarrow> string \<Rightarrow> string \<Rightarrow> bool \<Rightarrow> state \<Rightarrow> state" where
  \<comment> \<open>Lines 203-205: \<open>id\<close> and \<open>upload_date\<close> take their defaults.\<close>
  "insert_video e title' description' filename' featured' s =
     s\<lparr>videos := videos s @
          [\<lparr>video_id = next_rowid s, title = title', description = description',
            filename = filename', upload_date = current_timestamp e,
            featured = featured'\<rparr>],
       sqlite_sequence := next_rowid s\<rparr>"

definition upload_video :: "env \<Rightarrow> state \<Rightarrow> upload_request \<Rightarrow> outcome" where
  "upload_video e s req =
     (if \<not> admin_logged_in s
      then \<lparr>new_state = s, flashed = [], response = Redirect Admin_login\<rparr>
      else case files_video req of
        None \<Rightarrow>
          \<lparr>new_state = s, flashed = [(''No file selected!'', ''error'')],
           response = Redirect Admin_dashboard\<rparr>
      | Some file \<Rightarrow>
         (case form req ''title'' of
            None \<Rightarrow> \<lparr>new_state = s, flashed = [], response = Raised BadRequestKeyError\<rparr>
          | Some title' \<Rightarrow>
             let description' = (case form req ''description'' of None \<Rightarrow> [] | Some d \<Rightarrow> d);
                 featured' = (''featured'' \<in> dom (form req))
             in
             if fs_filename file = []
             then \<lparr>new_state = s, flashed = [(''No file selected!'', ''error'')],
                   response = Redirect Admin_dashboard\<rparr>
             else
               (case (if fs_filename file \<noteq> [] then allowed_file (fs_filename file)
                      else Inr False) of
                  Inl err \<Rightarrow> \<lparr>new_state = s, flashed = [], response = Raised err\<rparr>
                | Inr False \<Rightarrow>
                    \<lparr>new_state = s,
                     flashed = [(''Invalid file type! Please upload a video file.'', ''error'')],
                     response = Redirect Admin_dashboard\<rparr>
                | Inr True \<Rightarrow>
                    let filename' = storage_name (now e) (fs_filename file);
                        file_path = os_path_join UPLOAD_FOLDER filename'
                    in
                    if save_raises e
                    then \<lparr>new_state =
                            (case save_partial e of
                               None \<Rightarrow> s
                             | Some written \<Rightarrow> s\<lparr>files := (files s)(file_path \<mapsto> written)\<rparr>),
                          flashed = [], response = Raised IOError\<rparr>
                    else
                      let s1 = s\<lparr>files := (files s)(file_path \<mapsto> fs_content file)\<rparr>
                      in
                      if sqlite_read_raises e \<or> sqlite_write_raises e
                      then \<lparr>new_state = s1, flashed = [],
                            response = Raised OperationalError\<rparr>
                      else
                        \<lparr>new_state = insert_video e title' description' filename' featured' s1,
                         flashed = [(''Video uploaded successfully!'', ''success'')],
                         response = Redirect Admin_dashboard\<rparr>)))"

section \<open>\<open>delete_video\<close> (lines 214-234) and \<open>toggle_featured\<close> (lines 236-251)\<close>

definition fetchone :: "nat \<Rightarrow> video list \<Rightarrow> video option" where
  \<comment> \<open>\<open>SELECT * FROM videos WHERE id = ?\<close>, first row or \<open>None\<close>.\<close>
  "fetchone vid rows = find (\<lambda>v. video_id v = vid) rows"

definition delete_video :: "env \<Rightarrow> state \<Rightarrow> nat \<Rightarrow> outcome" where
  "delete_video e s vid =
     (if \<not> admin_logged_in s
      then \<lparr>new_state = s, flashed = [], response = Redirect Admin_login\<rparr>
      else if sqlite_read_raises e
      then \<lparr>new_state = s, flashed = [], response = Raised OperationalError\<rparr>
      else case fetchone vid (videos s) of
        None \<Rightarrow> \<lparr>new_state = s, flashed = [], response = Redirect Admin_dashboard\<rparr>
      | Some video \<Rightarrow>
          let file_path = os_path_join UPLOAD_FOLDER (filename video) in
          if file_path \<in> dom (files s) \<and> remove_raises e
          then \<lparr>new_state = s, flashed = [], response = Raised IOError\<rparr>
          else
            let s1 = (if file_path \<in> dom (files s)
                      then s\<lparr>files := (files s)(file_path := None)\<rparr> else s)
            in
            if sqlite_write_raises e
            then \<lparr>new_state = s1, flashed = [], response = Raised OperationalError\<rparr>
            else \<lparr>new_state = s1\<lparr>videos := filter (\<lambda>v. video_id v \<noteq> vid) (videos s1)\<rparr>,
                  flashed = [(''Video deleted successfully!'', ''success'')],
                  response = Redirect Admin_dashboard\<rparr>)"

definition toggle_featured :: "env \<Rightarrow> state \<Rightarrow> nat \<Rightarrow> outcome" where
  "toggle_featured e s vid =
     (if \<not> admin_logged_in s
      then \<lparr>new_state = s, flashed = [], response = Redirect Admin_login\<rparr>
      else if sqlite_read_raises e
      then \<lparr>new_state = s, flashed = [], response = Raised OperationalError\<rparr>
      else case fetchone vid (videos s) of
        None \<Rightarrow> \<lparr>new_state = s, flashed = [], response = Redirect Admin_dashboard\<rparr>
      | Some video \<Rightarrow>
          let new_featured = (\<not> featured video) in
          if sqlite_write_raises e
          then \<lparr>new_state = s, flashed = [], response = Raised OperationalError\<rparr>
          else
          \<lparr>new_state = s\<lparr>videos :=
               map (\<lambda>v. if video_id v = vid then v\<lparr>featured := new_featured\<rparr> else v)
                 (videos s)\<rparr>,
           flashed = [(''Video featured status updated!'', ''success'')],
           response = Redirect Admin_dashboard\<rparr>)"

definition primary_key :: "state \<Rightarrow> bool" where
  \<comment> \<open>\<open>id INTEGER PRIMARY KEY\<close>: no two rows share an id.\<close>
  "primary_key s \<longleftrightarrow> distinct (map video_id (videos s))"

section \<open>Example inputs\<close>

text \<open>
  Two clock readings one second apart, two engines for \<open>ORDER BY\<close> (the second one
  sorts the reversed scan, so rows with equal dates come out in descending rowid order),
  and a table with the spec's two videos, uploaded in the same second.
\<close>

definition noon :: datetime where
  "noon = \<lparr>year = 2024, month = 3, day = 9, hour = 12, minute = 0, second = 0,
           microsecond = 0\<rparr>"

definition noon_plus_1s :: datetime where
  "noon_plus_1s = noon\<lparr>second := 1\<rparr>"

definition reverse_scan_sort :: "video list \<Rightarrow> video list" where
  "reverse_scan_sort rows = scan_order_sort (rev rows)"

definition env_ok :: env where
  "env_ok = \<lparr>now = noon, current_timestamp = 300, save_raises = False,
             save_partial = None, remove_raises = False, sqlite_read_raises = False,
             sqlite_write_raises = False, order_by_upload_date_desc = scan_order_sort\<rparr>"

definition env_reverse :: env where
  "env_reverse = env_ok\<lparr>order_by_upload_date_desc := reverse_scan_sort\<rparr>"

definition env_db_down :: env where
  \<comment> \<open>The \<open>INSERT\<close>, \<open>UPDATE\<close> or \<open>DELETE\<close> of the request raises.\<close>
  "env_db_down = env_ok\<lparr>sqlite_write_raises := True\<rparr>"

definition env_disk_full :: env where
  \<comment> \<open>The write fails after two bytes.\<close>
  "env_disk_full = env_ok\<lparr>save_raises := True, save_partial := Some ''DA''\<rparr>"

definition env_clock_set_back :: env where
  \<comment> \<open>An hour after \<open>env_ok\<close>, with the local clock showing the same reading again.\<close>
  "env_clock_set_back = env_ok\<lparr>current_timestamp := 3900\<rparr>"

definition env_remove_denied :: env where
  "env_remove_denied = env_ok\<lparr>remove_raises := True\<rparr>"

definition video_a :: video where
  "video_a = \<lparr>video_id = 1, title = ''Intro'', description = [], filename = ''a.mp4'',
              upload_date = 100, featured = True\<rparr>"

definition video_b :: video where
  "video_b = \<lparr>video_id = 2, title = ''Outro'', description = [], filename = ''b.mp4'',
              upload_date = 100, featured = False\<rparr>"

definition video_c :: video where
  "video_c = \<lparr>video_id = 3, title = ''Later'', description = [], filename = ''c.mp4'',
              upload_date = 200, featured = True\<rparr>"

definition admin_state :: state where
  \<comment> \<open>An admin's session; the file of the second video is missing.\<close>
  "admin_state = \<lparr>admin_logged_in = True, videos = [video_a, video_b], sqlite_sequence = 2,
                  files = [''static/uploads/a.mp4'' \<mapsto> ''AAAA'']\<rparr>"

definition visitor_state :: state where
  "visitor_state = admin_state\<lparr>admin_logged_in := False\<rparr>"

definition dated_state :: state where
  \<comment> \<open>No two rows share a date.\<close>
  "dated_state = admin_state\<lparr>videos := [video_a, video_c], sqlite_sequence := 3\<rparr>"

definition curated_state :: state where
  "curated_state = admin_state\<lparr>videos := [video_a, video_b, video_c], sqlite_sequence := 3\<rparr>"

definition untitled_upload :: upload_request where
  "untitled_upload =
     \<lparr>files_video = Some \<lparr>fs_filename = ''clip.MP4'', fs_content = ''DATA''\<rparr>,
      form = [''title'' \<mapsto> [], ''featured'' \<mapsto> ''on'']\<rparr>"

definition traversal_upload :: upload_request where
  "traversal_upload =
     \<lparr>files_video = Some \<lparr>fs_filename = ''../../etc/passwd.mp4'', fs_content = ''ROOT''\<rparr>,
      form = [''title'' \<mapsto> ''Passwords'']\<rparr>"

lemmas examples =
  noon_def noon_plus_1s_def reverse_scan_sort_def env_ok_def env_reverse_def env_db_down_def
  env_disk_full_def env_clock_set_back_def env_remove_denied_def video_a_def video_b_def video_c_def admin_state_def
  visitor_state_def dated_state_def curated_state_def untitled_upload_def traversal_upload_def

section \<open>Facts about the string operations\<close>

lemma rsplit1_length:
  "length (rsplit1 sep s) = (if sep \<in> set s then 2 else 1)"
  by (simp add: rsplit1_def)

lemma rsplit1_join:
  assumes "sep \<in> set s"
  shows "s = rev (tl (dropWhile (\<lambda>c. c \<noteq> sep) (rev s))) @ [sep]
             @ rev (takeWhile (\<lambda>c. c \<noteq> sep) (rev s))"
proof -
  let ?d = "dropWhile (\<lambda>c. c \<noteq> sep) (rev s)"
  let ?t = "takeWhile (\<lambda>c. c \<noteq> sep) (rev s)"
  have ne: "?d \<noteq> []" using assms by (simp add: dropWhile_eq_Nil_conv)
  then have "hd ?d = sep" using hd_dropWhile [of "\<lambda>c. c \<noteq> sep" "rev s"] by simp
  with ne have d: "?d = sep # tl ?d" by (cases ?d) auto
  have "rev s = ?t @ ?d" by simp
  then have "rev s = ?t @ sep # tl ?d" using d by simp
  then have "rev (rev s) = rev (?t @ sep # tl ?d)" by (rule arg_cong)
  then show ?thesis by simp
qed

lemma rsplit1_suffix_unique:
  assumes "s = b @ [sep] @ e" and "sep \<notin> set e"
  shows "rev (takeWhile (\<lambda>c. c \<noteq> sep) (rev s)) = e"
proof -
  have "rev s = rev e @ sep # rev b" using assms(1) by simp
  moreover have "takeWhile (\<lambda>c. c \<noteq> sep) (rev e @ sep # rev b)
      = rev e @ takeWhile (\<lambda>c. c \<noteq> sep) (sep # rev b)"
    by (rule takeWhile_append2) (use assms(2) in auto)
  ultimately have "takeWhile (\<lambda>c. c \<noteq> sep) (rev s) = rev e"
    by simp
  then show ?thesis by simp
qed

lemma rsplit1_suffix_no_sep:
  "sep \<notin> set (rev (takeWhile (\<lambda>c. c \<noteq> sep) (rev s)))"
  by (auto dest: set_takeWhileD)

lemma allowed_file_returns:
  "allowed_file fname = Inr (CHR ''.'' \<in> set fname \<and>
      lower (rev (takeWhile (\<lambda>c. c \<noteq> CHR ''.'') (rev fname))) \<in> ALLOWED_EXTENSIONS)"
  by (simp add: allowed_file_def py_index_def rsplit1_def)

lemma allowed_file_Nil: "allowed_file [] = Inr False"
  by (simp add: allowed_file_def)

section \<open>Facts about the storage name\<close>

lemma digit_char_inj: "digit_char a = digit_char b \<Longrightarrow> a mod 10 = b mod 10"
proof -
  assume e: "digit_char a = digit_char b"
  have d: "distinct ''0123456789''" by simp
  have "a mod 10 < length ''0123456789''" "b mod 10 < length ''0123456789''" by simp_all
  with d e show ?thesis unfolding digit_char_def by (simp only: nth_eq_iff_index_eq)
qed

lemma div_mod_10_eq:
  fixes a b :: nat
  assumes "a div 10 = b div 10" and "a mod 10 = b mod 10"
  shows "a = b"
  using assms by (metis div_mult_mod_eq)

lemma dec2_inj:
  assumes "dec2 a = dec2 b" and "a < 100" and "b < 100"
  shows "a = b"
proof -
  have h: "(a div 10) mod 10 = (b div 10) mod 10" and l: "a mod 10 = b mod 10"
    using assms(1) by (auto simp: dec2_def dest: digit_char_inj)
  have "a div 10 < 10" "b div 10 < 10" using assms(2,3) by simp_all
  with h have "a div 10 = b div 10" by simp
  then show ?thesis using l by (rule div_mod_10_eq)
qed

lemma dec4_inj:
  assumes "dec4 a = dec4 b" and "a < 10000" and "b < 10000"
  shows "a = b"
proof -
  have d3: "(a div 1000) mod 10 = (b div 1000) mod 10"
    and d2: "(a div 100) mod 10 = (b div 100) mod 10"
    and d1: "(a div 10) mod 10 = (b div 10) mod 10" and d0: "a mod 10 = b mod 10"
    using assms(1) by (auto simp: dec4_def dest: digit_char_inj)
  have "a div 1000 < 10" "b div 1000 < 10" using assms(2,3) by simp_all
  with d3 have e3: "a div 1000 = b div 1000" by simp
  have s: "x div 1000 = x div 100 div 10" "x div 100 = x div 10 div 10" for x :: nat
    by (simp_all add: div_mult2_eq [symmetric])
  have "a div 100 div 10 = b div 100 div 10" using e3 by (simp only: s(1))
  then have e2: "a div 100 = b div 100" using d2 by (rule div_mod_10_eq)
  then have "a div 10 div 10 = b div 10 div 10" by (simp only: s(2))
  then have e1: "a div 10 = b div 10" using d1 by (rule div_mod_10_eq)
  from e1 d0 show ?thesis by (rule div_mod_10_eq)
qed

lemma length_strftime: "length (strftime_Ymd_HMS d) = 15"
  by (simp add: strftime_Ymd_HMS_def dec2_def dec4_def)

lemma strftime_inj:
  assumes "strftime_Ymd_HMS a = strftime_Ymd_HMS b" and "valid_datetime a" and "valid_datetime b"
  shows "same_second a b"
proof -
  have e: "dec4 (year a) = dec4 (year b)" "dec2 (month a) = dec2 (month b)"
       "dec2 (day a) = dec2 (day b)" "dec2 (hour a) = dec2 (hour b)"
       "dec2 (minute a) = dec2 (minute b)" "dec2 (second a) = dec2 (second b)"
    using assms(1) by (simp_all add: strftime_Ymd_HMS_def dec2_def dec4_def)
  have "year a = year b"
    using assms(2,3) by (intro dec4_inj [OF e(1)]) (simp_all add: valid_datetime_def)
  moreover have "month a = month b"
    using assms(2,3) by (intro dec2_inj [OF e(2)]) (simp_all add: valid_datetime_def)
  moreover have "day a = day b"
    using assms(2,3) by (intro dec2_inj [OF e(3)]) (simp_all add: valid_datetime_def)
  moreover have "hour a = hour b"
    using assms(2,3) by (intro dec2_inj [OF e(4)]) (simp_all add: valid_datetime_def)
  moreover have "minute a = minute b"
    using assms(2,3) by (intro dec2_inj [OF e(5)]) (simp_all add: valid_datetime_def)
  moreover have "second a = second b"
    using assms(2,3) by (intro dec2_inj [OF e(6)]) (simp_all add: valid_datetime_def)
  ultimately show ?thesis by (simp add: same_second_def)
qed

lemma set_strip: "set (strip chars s) \<subseteq> set s"
proof -
  have "set (strip chars s) \<subseteq> set (dropWhile (\<lambda>c. c \<in> set chars) s)"
    unfolding strip_def by (auto dest: set_dropWhileD)
  also have "\<dots> \<subseteq> set s" by (auto dest: set_dropWhileD)
  finally show ?thesis .
qed

lemma secure_filename_safe: "set (secure_filename fname) \<subseteq> safe_chars"
proof -
  have "set (secure_filename fname) \<subseteq> set (filter (\<lambda>c. c \<in> safe_chars)
         (join ''_'' (split_ws []
             (map (\<lambda>c. if c = CHR ''/'' then CHR '' '' else c) (ascii_ignore fname)))))"
    unfolding secure_filename_def by (rule set_strip)
  then show ?thesis by auto
qed

lemma slash_unsafe: "CHR ''/'' \<notin> safe_chars"
  by (simp add: safe_chars_def)

lemma digit_char_digit: "digit_char n \<in> set ''0123456789''"
  unfolding digit_char_def by (rule nth_mem) simp

lemma digit_char_not_slash: "digit_char n \<noteq> CHR ''/''" "CHR ''/'' \<noteq> digit_char n"
  using digit_char_digit [of n] by auto

lemma strftime_no_slash: "CHR ''/'' \<notin> set (strftime_Ymd_HMS d)"
  by (simp add: strftime_Ymd_HMS_def dec2_def dec4_def digit_char_not_slash)

lemma storage_name_no_slash: "CHR ''/'' \<notin> set (storage_name d fname)"
  using secure_filename_safe [of fname] slash_unsafe strftime_no_slash [of d]
  by (auto simp: storage_name_def)

lemma split_on_no_sep: "sep \<notin> set s \<Longrightarrow> split_on sep s = [s]"
  by (induction s) auto

lemma length_storage_name: "15 < length (storage_name d fname)"
  by (simp add: storage_name_def strftime_Ymd_HMS_def dec2_def dec4_def)

lemma storage_name_path:
  "os_path_join UPLOAD_FOLDER (storage_name d fname) = ''static/uploads/'' @ storage_name d fname"
proof -
  have "storage_name d fname \<noteq> []" using length_storage_name [of d fname] by auto
  moreover have "hd (storage_name d fname) \<noteq> CHR ''/''"
    by (simp add: storage_name_def strftime_Ymd_HMS_def dec4_def digit_char_not_slash)
  ultimately show ?thesis by (simp add: os_path_join_def UPLOAD_FOLDER_def)
qed

lemma storage_name_components:
  "path_components (os_path_join UPLOAD_FOLDER (storage_name d fname)) =
     [''static'', ''uploads'', storage_name d fname]"
proof -
  let ?n = "storage_name d fname"
  have "split_on (CHR ''/'') ?n = [?n]"
    by (rule split_on_no_sep) (rule storage_name_no_slash)
  then have s: "split_on (CHR ''/'') (''static/uploads/'' @ ?n) = [''static'', ''uploads'', ?n]"
    by simp
  have r: "resolve [] [''static'', ''uploads'', ?n] = [''static'', ''uploads'', ?n]"
    if "?n \<noteq> []" "?n \<noteq> ''.''" "?n \<noteq> ''..''"
    using that by simp
  have "length ?n \<noteq> 0" "length ?n \<noteq> 1" "length ?n \<noteq> 2"
    using length_storage_name [of d fname] by auto
  then have "?n \<noteq> []" "?n \<noteq> ''.''" "?n \<noteq> ''..''" by auto
  then show ?thesis unfolding path_components_def storage_name_path s by (rule r)
qed

lemma upload_folder_components: "path_components UPLOAD_FOLDER = [''static'', ''uploads'']"
  by (simp add: path_components_def UPLOAD_FOLDER_def)

lemma unsanitized_name_escapes:
  "path_components (os_path_join UPLOAD_FOLDER ''../../etc/passwd.mp4'') = [''etc'', ''passwd.mp4'']"
  by (simp add: path_components_def UPLOAD_FOLDER_def os_path_join_def)

section \<open>Facts about \<open>ORDER BY\<close>\<close>

lemma mset_insert_desc: "mset (insert_desc v ws) = add_mset v (mset ws)"
  by (induction ws) auto

lemma set_insert_desc: "set (insert_desc v ws) = insert v (set ws)"
  by (induction ws) auto

lemma sorted_insert_desc:
  "sorted_wrt (\<lambda>a b. upload_date b \<le> upload_date a) ws \<Longrightarrow>
   sorted_wrt (\<lambda>a b. upload_date b \<le> upload_date a) (insert_desc v ws)"
  by (induction ws) (auto simp: set_insert_desc)

lemma scan_order_sort_sql: "sql_order_by scan_order_sort"
proof -
  have m: "mset (foldr insert_desc rows []) = mset rows" for rows
    by (induction rows) (simp_all add: mset_insert_desc)
  have s: "sorted_wrt (\<lambda>a b. upload_date b \<le> upload_date a) (foldr insert_desc rows [])"
    for rows
    by (induction rows) (simp_all add: sorted_insert_desc)
  show ?thesis by (simp add: sql_order_by_def scan_order_sort_def m s)
qed

lemma reverse_scan_sort_sql: "sql_order_by reverse_scan_sort"
  using scan_order_sort_sql by (simp add: sql_order_by_def reverse_scan_sort_def)

lemma sql_order_by_set: "sql_order_by ob \<Longrightarrow> set (ob rows) = set rows"
  by (metis sql_order_by_def mset_eq_setD)

lemma sql_order_by_mset: "sql_order_by ob \<Longrightarrow> mset (ob rows) = mset rows"
  by (simp add: sql_order_by_def)

lemma sql_order_by_sorted:
  "sql_order_by ob \<Longrightarrow> sorted_wrt (\<lambda>a b. upload_date b \<le> upload_date a) (ob rows)"
  by (simp add: sql_order_by_def)

lemma sorted_wrt_take: "sorted_wrt P xs \<Longrightarrow> sorted_wrt P (take n xs)"
  by (metis append_take_drop_id sorted_wrt_append)

lemma desc_unique:
  assumes "sorted_wrt (\<lambda>a b. upload_date b \<le> upload_date a) xs"
      and "sorted_wrt (\<lambda>a b. upload_date b \<le> upload_date a) ys"
      and "mset xs = mset rows" and "mset ys = mset rows"
      and "distinct (map upload_date rows)"
    shows "xs = ys"
proof -
  have sx: "set xs = set rows" and sy: "set ys = set rows"
    using assms(3,4) by (auto dest: mset_eq_setD)
  have "mset (map upload_date xs) = mset (map upload_date rows)"
       "mset (map upload_date ys) = mset (map upload_date rows)"
    using assms(3,4) by (metis mset_map)+
  then have dx: "distinct (map upload_date xs)" and dy: "distinct (map upload_date ys)"
    using assms(5) by (metis mset_eq_imp_distinct_iff)+
  have inj: "inj_on upload_date (set (rev xs) \<union> set (rev ys))"
    using assms(5) sx sy by (simp add: distinct_map)
  have s1: "sorted (map upload_date (rev xs))" and s2: "sorted (map upload_date (rev ys))"
    using assms(1,2) by (simp_all add: sorted_map sorted_wrt_rev)
  have d1: "distinct (map upload_date (rev xs))" and d2: "distinct (map upload_date (rev ys))"
    using dx dy by (simp_all add: distinct_map)
  have e: "set (rev xs) = set (rev ys)" using sx sy by simp
  have "rev xs = rev ys"
    by (rule map_sorted_distinct_set_unique [OF inj s1 d1 s2 d2 e])
  then show ?thesis by simp
qed

lemma sql_order_by_unique:
  assumes "sql_order_by ob" and "sql_order_by ob'" and "distinct (map upload_date rows)"
  shows "ob rows = ob' rows"
  using assms by (intro desc_unique [where rows = rows]) (simp_all add: sql_order_by_def)

section \<open>Facts about the table\<close>

lemma find_distinct_nth:
  assumes "distinct (map f xs)" and "i < length xs"
  shows "find (\<lambda>v. f v = f (xs ! i)) xs = Some (xs ! i)"
  using assms
proof (induction xs arbitrary: i)
  case Nil
  then show ?case by simp
next
  case (Cons x xs)
  show ?case
  proof (cases i)
    case 0
    then show ?thesis by simp
  next
    case (Suc j)
    with Cons.prems have "j < length xs" and "f (xs ! j) \<noteq> f x"
      by (auto simp: image_iff) (metis nth_mem)
    with Cons Suc show ?thesis by auto
  qed
qed

lemma filter_distinct_nth:
  assumes "distinct (map f xs)" and "i < length xs"
  shows "filter (\<lambda>v. f v \<noteq> f (xs ! i)) xs = take i xs @ drop (Suc i) xs"
  using assms
proof (induction xs arbitrary: i)
  case Nil
  then show ?case by simp
next
  case (Cons x xs)
  show ?case
  proof (cases i)
    case 0
    have "f x \<notin> f ` set xs" using Cons.prems(1) by simp
    then have "\<forall>v\<in>set xs. f v \<noteq> f x" by (metis imageI)
    then have "filter (\<lambda>v. f v \<noteq> f x) xs = xs"
      by (simp add: filter_id_conv)
    with 0 show ?thesis by simp
  next
    case (Suc j)
    with Cons.prems have "j < length xs" and "f (xs ! j) \<noteq> f x"
      by (auto simp: image_iff) (metis nth_mem)
    with Cons Suc show ?thesis by auto
  qed
qed

lemma fetchone_nth:
  "primary_key s \<Longrightarrow> i < length (videos s) \<Longrightarrow>
   fetchone (video_id (videos s ! i)) (videos s) = Some (videos s ! i)"
  unfolding primary_key_def fetchone_def by (rule find_distinct_nth)

lemma fetchone_None: "vid \<notin> video_id ` set (videos s) \<Longrightarrow> fetchone vid (videos s) = None"
  by (auto simp: fetchone_def find_None_iff)

lemma fold_max_ge: "(a::nat) \<le> fold max xs a"
proof (induction xs arbitrary: a)
  case Nil
  then show ?case by simp
next
  case (Cons x xs)
  have "a \<le> max x a" by simp
  also have "\<dots> \<le> fold max xs (max x a)" by (rule Cons.IH)
  finally show ?case by simp
qed

lemma fold_max_ge_elem: "x \<in> set xs \<Longrightarrow> (x::nat) \<le> fold max xs a"
proof (induction xs arbitrary: a)
  case Nil
  then show ?case by simp
next
  case (Cons y ys)
  show ?case
  proof (cases "x = y")
    case True
    have "x \<le> max y a" using True by simp
    also have "\<dots> \<le> fold max ys (max y a)" by (rule fold_max_ge)
    finally show ?thesis by simp
  next
    case False
    with Cons.prems have "x \<in> set ys" by simp
    then show ?thesis using Cons.IH by simp
  qed
qed

lemma next_rowid_fresh: "v \<in> set (videos s) \<Longrightarrow> video_id v < next_rowid s"
  using fold_max_ge_elem [of "video_id v" "map video_id (videos s)" "sqlite_sequence s"]
  by (simp add: next_rowid_def le_imp_less_Suc)

text \<open>The handlers keep the ids of the table distinct.\<close>

lemma primary_key_preserved:
  assumes "primary_key s"
  shows "primary_key (new_state (upload_video e s req))"
    and "primary_key (new_state (delete_video e s vid))"
    and "primary_key (new_state (toggle_featured e s vid))"
proof -
  have "next_rowid s \<notin> video_id ` set (videos s)"
    using next_rowid_fresh [of _ s] by (metis imageE less_irrefl)
  then have "primary_key (insert_video e t d f b (s\<lparr>files := m\<rparr>))" for t d f b m
    using assms by (simp add: primary_key_def insert_video_def next_rowid_def)
  then show "primary_key (new_state (upload_video e s req))"
    using assms
    by (auto simp: upload_video_def Let_def primary_key_def
          split: option.splits sum.splits bool.splits)
  show "primary_key (new_state (delete_video e s vid))"
    using assms
    by (auto simp: delete_video_def Let_def primary_key_def distinct_map_filter
          split: option.splits)
  have c: "video_id \<circ> (\<lambda>v. if video_id v = vid then v\<lparr>featured := b\<rparr> else v) = video_id"
    for b
    by (auto simp: fun_eq_iff)
  show "primary_key (new_state (toggle_featured e s vid))"
    using assms
    by (auto simp: toggle_featured_def Let_def primary_key_def c split: option.splits)
qed

text \<open>
  When \<open>os.remove\<close> raises on an existing file, the exception leaves the handler before
  the \<open>DELETE\<close>: the row stays.
\<close>

lemma delete_video_remove_raises:
  "admin_logged_in s \<Longrightarrow> \<not> sqlite_read_raises e \<Longrightarrow> fetchone X (videos s) = Some v \<Longrightarrow>
   os_path_join UPLOAD_FOLDER (filename v) \<in> dom (files s) \<Longrightarrow> remove_raises e \<Longrightarrow>
   delete_video e s X = \<lparr>new_state = s, flashed = [], response = Raised IOError\<rparr>"
  by (simp add: delete_video_def)

section \<open>\<open>lower\<close> and the spec's "any case"\<close>

lemma map_of_default_eq:
  assumes "distinct (map fst t)" and "l \<notin> fst ` set t"
  shows "(case map_of t c of Some x \<Rightarrow> x | None \<Rightarrow> c) = l \<longleftrightarrow> c = l \<or> (c, l) \<in> set t"
proof (cases "map_of t c")
  case None
  then have "c \<notin> fst ` set t" by (metis map_of_eq_None_iff)
  then have "(c, l) \<notin> set t" by (metis fst_conv imageI)
  with None show ?thesis by simp
next
  case (Some l')
  then have m: "(c, l') \<in> set t" by (rule map_of_SomeD)
  then have "c \<in> fst ` set t" by (metis fst_conv imageI)
  with assms(2) have ne: "c \<noteq> l" by auto
  have "(c, l) \<in> set t \<longleftrightarrow> l = l'"
    using Some map_of_is_SomeI [OF assms(1)] m by (metis option.inject)
  with Some ne show ?thesis by auto
qed

lemma lower_char_eq:
  assumes "l \<notin> set ''ABCDEFGHIJKLMNOPQRSTUVWXYZ''"
  shows "lower_char c = l \<longleftrightarrow> letter_in_any_case c l"
  unfolding lower_char_def letter_in_any_case_def
proof (rule map_of_default_eq)
  show "distinct (map fst (zip ''ABCDEFGHIJKLMNOPQRSTUVWXYZ'' ''abcdefghijklmnopqrstuvwxyz''))"
    by simp
  have "fst ` set (zip ''ABCDEFGHIJKLMNOPQRSTUVWXYZ'' ''abcdefghijklmnopqrstuvwxyz'')
        \<subseteq> set ''ABCDEFGHIJKLMNOPQRSTUVWXYZ''"
    by (auto dest: set_zip_leftD)
  with assms
  show "l \<notin> fst ` set (zip ''ABCDEFGHIJKLMNOPQRSTUVWXYZ'' ''abcdefghijklmnopqrstuvwxyz'')"
    by blast
qed

lemma lower_eq:
  assumes "set a \<inter> set ''ABCDEFGHIJKLMNOPQRSTUVWXYZ'' = {}"
  shows "lower ext = a \<longleftrightarrow> in_any_case ext a"
  using assms
proof (induction ext arbitrary: a)
  case Nil
  then show ?case by (auto simp: lower_def in_any_case_def)
next
  case (Cons c cs)
  show ?case
  proof (cases a)
    case Nil
    then show ?thesis by (simp add: lower_def in_any_case_def)
  next
    case (Cons l ls)
    with Cons.prems have l: "l \<notin> set ''ABCDEFGHIJKLMNOPQRSTUVWXYZ''"
      and ls: "set ls \<inter> set ''ABCDEFGHIJKLMNOPQRSTUVWXYZ'' = {}"
      by auto
    have "lower cs = ls \<longleftrightarrow> in_any_case cs ls" using Cons.IH [OF ls] .
    then show ?thesis
      using lower_char_eq [OF l, of c] Cons
      by (simp add: lower_def in_any_case_def)
  qed
qed

section \<open>Running the examples\<close>

lemmas run_name =
  storage_name_def strftime_Ymd_HMS_def dec2_def dec4_def digit_char_def secure_filename_def
  strip_def safe_chars_def ascii_ignore_def is_space_def

lemmas run_upload =
  upload_video_def allowed_file_returns lower_def lower_char_def ALLOWED_EXTENSIONS_def
  insert_video_def next_rowid_def Let_def run_name os_path_join_def UPLOAD_FOLDER_def

lemmas run_listing =
  home_def highlights_def admin_dashboard_def listing_def format_videos_def
  scan_order_sort_def Let_def

lemma allowed_file_examples:
  "allowed_file ''clip.MP4'' = Inr True" "allowed_file ''clip.WebM'' = Inr True"
  "allowed_file ''clip'' = Inr False" "allowed_file ''clip.mp4.exe'' = Inr False"
  "allowed_file ''mp4'' = Inr False" "allowed_file ''archive.tar.mov'' = Inr True"
  by (simp_all add: allowed_file_returns lower_def lower_char_def ALLOWED_EXTENSIONS_def)

section \<open>Claims\<close>

subsection \<open>C1: an upload with an empty title\<close>

text \<open>
  C1, as stated, fails: \<open>upload_video\<close> never looks at the title. An admin's upload of
  \<open>clip.MP4\<close> with the title field present and empty inserts a row with the empty title
  and flashes the success message.
\<close>

theorem upload_empty_title_counterexample:
  "form untitled_upload ''title'' = Some [] \<and>
   map title (videos (new_state (upload_video env_ok admin_state untitled_upload)))
     = [''Intro'', ''Outro'', []] \<and>
   flashed (upload_video env_ok admin_state untitled_upload)
     = [(''Video uploaded successfully!'', ''success'')] \<and>
   response (upload_video env_ok admin_state untitled_upload) = Redirect Admin_dashboard"
  by (simp add: examples upload_video_def allowed_file_returns lower_def lower_char_def
        ALLOWED_EXTENSIONS_def insert_video_def Let_def)

text \<open>
  C1, amended. For an upload whose title field is the empty string: when the session is
  an admin's, the request has a video part whose name \<open>allowed_file\<close> accepts, and neither
  \<open>file.save\<close> nor the database raises, exactly one row is appended, with the empty
  title, the storage name as filename and the date of the insert, and the success message
  is flashed. In every other case the table is unchanged.
\<close>

theorem upload_empty_title:
  assumes "form req ''title'' = Some []"
  shows "(admin_logged_in s \<and> files_video req = Some upl \<and>
            allowed_file (fs_filename upl) = Inr True \<and> \<not> save_raises e \<and>
            \<not> sqlite_read_raises e \<and> \<not> sqlite_write_raises e \<longrightarrow>
            videos (new_state (upload_video e s req)) =
              videos s @
                [\<lparr>video_id = next_rowid s, title = [],
                  description = (case form req ''description'' of None \<Rightarrow> [] | Some d \<Rightarrow> d),
                  filename = storage_name (now e) (fs_filename upl),
                  upload_date = current_timestamp e,
                  featured = (''featured'' \<in> dom (form req))\<rparr>] \<and>
            flashed (upload_video e s req) = [(''Video uploaded successfully!'', ''success'')] \<and>
            response (upload_video e s req) = Redirect Admin_dashboard) \<and>
         (\<not> admin_logged_in s \<or> files_video req = None \<or>
            (\<exists>f. files_video req = Some f \<and> allowed_file (fs_filename f) \<noteq> Inr True) \<or>
            save_raises e \<or> sqlite_read_raises e \<or> sqlite_write_raises e \<longrightarrow>
            videos (new_state (upload_video e s req)) = videos s)"
proof -
  let ?row = "\<lparr>video_id = next_rowid s, title = [],
                  description = (case form req ''description'' of None \<Rightarrow> [] | Some d \<Rightarrow> d),
                  filename = storage_name (now e) (fs_filename upl),
                  upload_date = current_timestamp e,
                  featured = (''featured'' \<in> dom (form req))\<rparr>"
  have accepted: "videos (new_state (upload_video e s req)) = videos s @ [?row] \<and>
            flashed (upload_video e s req) = [(''Video uploaded successfully!'', ''success'')] \<and>
            response (upload_video e s req) = Redirect Admin_dashboard"
    if a: "admin_logged_in s \<and> files_video req = Some upl \<and>
            allowed_file (fs_filename upl) = Inr True \<and> \<not> save_raises e \<and>
            \<not> sqlite_read_raises e \<and> \<not> sqlite_write_raises e"
  proof -
    have ne: "fs_filename upl \<noteq> []" using a allowed_file_Nil by auto
    show ?thesis
      using a ne assms by (simp add: upload_video_def Let_def insert_video_def next_rowid_def)
  qed
  have rejected: "videos (new_state (upload_video e s req)) = videos s"
    if "\<not> admin_logged_in s \<or> files_video req = None \<or>
            (\<exists>f. files_video req = Some f \<and> allowed_file (fs_filename f) \<noteq> Inr True) \<or>
            save_raises e \<or> sqlite_read_raises e \<or> sqlite_write_raises e"
    using that assms
    by (auto simp: upload_video_def Let_def split: option.splits sum.splits bool.splits)
  show ?thesis using accepted rejected by blast
qed

theorem upload_empty_title_witness:
  "form untitled_upload ''title'' = Some [] \<and>
   videos (new_state (upload_video env_ok admin_state untitled_upload)) =
     [video_a, video_b,
      \<lparr>video_id = 3, title = [], description = [],
        filename = ''20240309_120000_clip.MP4'', upload_date = 300, featured = True\<rparr>] \<and>
   videos (new_state (upload_video env_ok visitor_state untitled_upload)) = [video_a, video_b] \<and>
   videos (new_state (upload_video env_disk_full admin_state untitled_upload))
     = [video_a, video_b]"
  using upload_empty_title [of untitled_upload admin_state
          "\<lparr>fs_filename = ''clip.MP4'', fs_content = ''DATA''\<rparr>" env_ok]
        upload_empty_title [of untitled_upload visitor_state
          "\<lparr>fs_filename = ''clip.MP4'', fs_content = ''DATA''\<rparr>" env_ok]
        upload_empty_title [of untitled_upload admin_state
          "\<lparr>fs_filename = ''clip.MP4'', fs_content = ''DATA''\<rparr>" env_disk_full]
  by (simp add: examples allowed_file_returns lower_def lower_char_def
        ALLOWED_EXTENSIONS_def next_rowid_def storage_name_def strftime_Ymd_HMS_def dec2_def
        dec4_def digit_char_def secure_filename_def strip_def safe_chars_def ascii_ignore_def
        is_space_def)

subsection \<open>C2: rows with equal upload dates\<close>

text \<open>
  C2, as stated, fails: the queries say \<open>ORDER BY upload_date DESC\<close> and nothing else.
  With the two videos of the same second, an engine that sorts stably lists id 1 before
  id 2 on the dashboard and the home page, and an engine that sorts the reversed scan
  lists id 2 first; both honour the \<open>ORDER BY\<close>.
\<close>

theorem listing_ties_counterexample:
  "sql_order_by (order_by_upload_date_desc env_ok) \<and>
   sql_order_by (order_by_upload_date_desc env_reverse) \<and>
   upload_date video_a = upload_date video_b \<and> video_id video_a < video_id video_b \<and>
   listing (admin_dashboard env_ok admin_state) ''videos'' = Some [video_a, video_b] \<and>
   listing (home env_ok admin_state) ''recent_videos'' = Some [video_a, video_b] \<and>
   listing (admin_dashboard env_reverse admin_state) ''videos'' = Some [video_b, video_a]"
  using scan_order_sort_sql reverse_scan_sort_sql
  by (simp add: examples run_listing)

text \<open>
  C2, amended. In every session, whatever order the engine gives to rows with equal
  dates, the four lists of the home page and the highlights page are returned and are in
  descending \<open>upload_date\<close> order, and so is the list of the admin dashboard in an
  admin's session. When no two rows of the table share an \<open>upload_date\<close>, the three
  pages are the same for every engine, so the listings are determined by the table.
\<close>

theorem listings_by_date_only:
  assumes "sql_order_by (order_by_upload_date_desc e)" and "\<not> sqlite_read_raises e"
  shows "(\<exists>fv rv fh oh.
            listing (home e s) ''featured_videos'' = Some fv \<and>
            listing (home e s) ''recent_videos'' = Some rv \<and>
            listing (highlights e s) ''featured_videos'' = Some fh \<and>
            listing (highlights e s) ''other_videos'' = Some oh \<and>
            sorted_wrt (\<lambda>a b. upload_date b \<le> upload_date a) fv \<and>
            sorted_wrt (\<lambda>a b. upload_date b \<le> upload_date a) rv \<and>
            sorted_wrt (\<lambda>a b. upload_date b \<le> upload_date a) fh \<and>
            sorted_wrt (\<lambda>a b. upload_date b \<le> upload_date a) oh) \<and>
         (admin_logged_in s \<longrightarrow>
            (\<exists>av. listing (admin_dashboard e s) ''videos'' = Some av \<and>
                  sorted_wrt (\<lambda>a b. upload_date b \<le> upload_date a) av)) \<and>
         (sql_order_by (order_by_upload_date_desc e') \<and> \<not> sqlite_read_raises e' \<and>
          distinct (map upload_date (videos s)) \<longrightarrow>
            home e' s = home e s \<and> highlights e' s = highlights e s \<and>
            admin_dashboard e' s = admin_dashboard e s)"
proof -
  have srt: "sorted_wrt (\<lambda>a b. upload_date b \<le> upload_date a) (take n (order_by_upload_date_desc e rows))"
            "sorted_wrt (\<lambda>a b. upload_date b \<le> upload_date a) (order_by_upload_date_desc e rows)"
    for n rows
    using sql_order_by_sorted [OF assms(1)] by (simp_all add: sorted_wrt_take)
  have public: "\<exists>fv rv fh oh.
            listing (home e s) ''featured_videos'' = Some fv \<and>
            listing (home e s) ''recent_videos'' = Some rv \<and>
            listing (highlights e s) ''featured_videos'' = Some fh \<and>
            listing (highlights e s) ''other_videos'' = Some oh \<and>
            sorted_wrt (\<lambda>a b. upload_date b \<le> upload_date a) fv \<and>
            sorted_wrt (\<lambda>a b. upload_date b \<le> upload_date a) rv \<and>
            sorted_wrt (\<lambda>a b. upload_date b \<le> upload_date a) fh \<and>
            sorted_wrt (\<lambda>a b. upload_date b \<le> upload_date a) oh"
    using assms(2) srt
    by (simp add: listing_def home_def highlights_def format_videos_def Let_def)
  have admin: "\<exists>av. listing (admin_dashboard e s) ''videos'' = Some av \<and>
                  sorted_wrt (\<lambda>a b. upload_date b \<le> upload_date a) av"
    if "admin_logged_in s"
    using that assms(2) srt
    by (simp add: listing_def admin_dashboard_def format_videos_def)
  have same: "home e' s = home e s \<and> highlights e' s = highlights e s \<and>
            admin_dashboard e' s = admin_dashboard e s"
    if a: "sql_order_by (order_by_upload_date_desc e') \<and> \<not> sqlite_read_raises e' \<and>
          distinct (map upload_date (videos s))"
  proof -
    have u: "order_by_upload_date_desc e' (filter P (videos s))
           = order_by_upload_date_desc e (filter P (videos s))" for P
      using a assms(1) by (intro sql_order_by_unique) (simp_all add: distinct_map_filter)
    have u': "order_by_upload_date_desc e' (videos s) = order_by_upload_date_desc e (videos s)"
      using u [of "\<lambda>_. True"] by simp
    show ?thesis
      using a assms(2) u u' by (simp add: home_def highlights_def admin_dashboard_def)
  qed
  show ?thesis using public admin same by blast
qed

theorem listings_by_date_only_witness:
  "sql_order_by (order_by_upload_date_desc env_ok) \<and> \<not> sqlite_read_raises env_ok \<and>
   \<not> admin_logged_in visitor_state \<and>
   listing (home env_ok visitor_state) ''recent_videos'' = Some [video_a, video_b] \<and>
   listing (highlights env_ok visitor_state) ''other_videos'' = Some [video_b] \<and>
   admin_logged_in dated_state \<and>
   sql_order_by (order_by_upload_date_desc env_reverse) \<and> \<not> sqlite_read_raises env_reverse \<and>
   distinct (map upload_date (videos dated_state)) \<and>
   listing (admin_dashboard env_ok dated_state) ''videos'' = Some [video_c, video_a] \<and>
   admin_dashboard env_reverse dated_state = admin_dashboard env_ok dated_state \<and>
   home env_reverse dated_state = home env_ok dated_state \<and>
   highlights env_reverse dated_state = highlights env_ok dated_state"
proof -
  have c: "sql_order_by (order_by_upload_date_desc env_ok)"
    using scan_order_sort_sql by (simp add: env_ok_def)
  have c': "sql_order_by (order_by_upload_date_desc env_reverse)"
    using reverse_scan_sort_sql by (simp add: env_ok_def env_reverse_def)
  have n: "\<not> sqlite_read_raises env_ok" "\<not> sqlite_read_raises env_reverse"
    "admin_logged_in dated_state" "\<not> admin_logged_in visitor_state"
    "distinct (map upload_date (videos dated_state))"
    by (simp_all add: examples)
  have l: "listing (admin_dashboard env_ok dated_state) ''videos'' = Some [video_c, video_a]"
    "listing (home env_ok visitor_state) ''recent_videos'' = Some [video_a, video_b]"
    "listing (highlights env_ok visitor_state) ''other_videos'' = Some [video_b]"
    by (simp_all add: examples run_listing)
  from listings_by_date_only [OF c n(1), of dated_state env_reverse]
       listings_by_date_only [OF c n(1), of visitor_state env_reverse] c c' n l
  show ?thesis by simp
qed

subsection \<open>C3: the extension check\<close>

text \<open>
  C3. \<open>allowed_file\<close> always returns (no \<open>IndexError\<close>), and it accepts a name exactly
  when the name can be cut as \<open>base.ext\<close> with no dot in \<open>ext\<close> (so \<open>ext\<close> is what
  follows the last dot) and \<open>ext\<close> is one of mp4, avi, mov, wmv, flv, webm in any case,
  each character being the letter of the allow-list or its capital. A name without a
  dot, or with any other extension, is rejected; \<open>clip.MP4\<close> and \<open>a.b.WebM\<close> are
  accepted, \<open>evil.exe\<close>, \<open>clip.mp4.exe\<close>, \<open>mp4\<close> and \<open>clip.\<close> are rejected.
\<close>

theorem allowed_file_iff:
  "allowed_file fname =
     Inr (\<exists>base ext a. fname = base @ ''.'' @ ext \<and> CHR ''.'' \<notin> set ext \<and>
            a \<in> {''mp4'', ''avi'', ''mov'', ''wmv'', ''flv'', ''webm''} \<and>
            in_any_case ext a) \<and>
   allowed_file ''clip.MP4'' = Inr True \<and> allowed_file ''a.b.WebM'' = Inr True \<and>
   allowed_file ''evil.exe'' = Inr False \<and> allowed_file ''clip.mp4.exe'' = Inr False \<and>
   allowed_file ''mp4'' = Inr False \<and> allowed_file ''clip.'' = Inr False"
proof -
  let ?suf = "rev (takeWhile (\<lambda>c. c \<noteq> CHR ''.'') (rev fname))"
  let ?R = "\<exists>base ext a. fname = base @ ''.'' @ ext \<and> CHR ''.'' \<notin> set ext \<and>
              a \<in> ALLOWED_EXTENSIONS \<and> in_any_case ext a"
  have low: "lower ext \<in> ALLOWED_EXTENSIONS \<longleftrightarrow> (\<exists>a\<in>ALLOWED_EXTENSIONS. in_any_case ext a)"
    for ext
  proof -
    have "lower ext = a \<longleftrightarrow> in_any_case ext a" if "a \<in> ALLOWED_EXTENSIONS" for a
      using that by (intro lower_eq) (auto simp: ALLOWED_EXTENSIONS_def)
    then show ?thesis by auto
  qed
  have "(CHR ''.'' \<in> set fname \<and> lower ?suf \<in> ALLOWED_EXTENSIONS) = ?R"
  proof
    assume a: "CHR ''.'' \<in> set fname \<and> lower ?suf \<in> ALLOWED_EXTENSIONS"
    then have "fname = rev (tl (dropWhile (\<lambda>c. c \<noteq> CHR ''.'') (rev fname))) @ ''.'' @ ?suf"
      using rsplit1_join [of "CHR ''.''" fname] by simp
    moreover have "CHR ''.'' \<notin> set ?suf" by (rule rsplit1_suffix_no_sep)
    moreover obtain x where "x \<in> ALLOWED_EXTENSIONS" "in_any_case ?suf x"
      using a low by blast
    ultimately show ?R by blast
  next
    assume ?R
    then obtain base ext x where f: "fname = base @ ''.'' @ ext"
      and n: "CHR ''.'' \<notin> set ext" and l: "x \<in> ALLOWED_EXTENSIONS" "in_any_case ext x"
      by blast
    have "?suf = ext" using rsplit1_suffix_unique [of fname base "CHR ''.''" ext] f n by simp
    moreover have "CHR ''.'' \<in> set fname" using f by simp
    moreover have "lower ext \<in> ALLOWED_EXTENSIONS" using l low by blast
    ultimately show "CHR ''.'' \<in> set fname \<and> lower ?suf \<in> ALLOWED_EXTENSIONS"
      by simp
  qed
  then have "allowed_file fname = Inr ?R" by (simp add: allowed_file_returns)
  moreover have "allowed_file ''clip.MP4'' = Inr True \<and> allowed_file ''a.b.WebM'' = Inr True \<and>
   allowed_file ''evil.exe'' = Inr False \<and> allowed_file ''clip.mp4.exe'' = Inr False \<and>
   allowed_file ''mp4'' = Inr False \<and> allowed_file ''clip.'' = Inr False"
    by (simp add: allowed_file_returns lower_def lower_char_def ALLOWED_EXTENSIONS_def)
  ultimately show ?thesis by (simp add: ALLOWED_EXTENSIONS_def)
qed

subsection \<open>C4: the session check\<close>

text \<open>
  C4. In a session without \<open>admin_logged_in\<close>, the upload, delete and toggle handlers
  (and the dashboard) answer with the redirect to the login page, flash nothing and leave
  the whole state as it was: table, counter and files. This holds for every request and
  whatever the file system and the database would have done, so nothing of them is
  reached.
\<close>

theorem unauthenticated_requests_change_nothing:
  assumes "\<not> admin_logged_in s"
  shows "upload_video e s req = \<lparr>new_state = s, flashed = [], response = Redirect Admin_login\<rparr> \<and>
         delete_video e s vid = \<lparr>new_state = s, flashed = [], response = Redirect Admin_login\<rparr> \<and>
         toggle_featured e s vid = \<lparr>new_state = s, flashed = [], response = Redirect Admin_login\<rparr> \<and>
         admin_dashboard e s = Redirect Admin_login"
  using assms by (simp add: upload_video_def delete_video_def toggle_featured_def admin_dashboard_def)

theorem unauthenticated_requests_change_nothing_witness:
  "\<not> admin_logged_in visitor_state \<and>
   upload_video env_ok visitor_state untitled_upload =
     \<lparr>new_state = visitor_state, flashed = [], response = Redirect Admin_login\<rparr> \<and>
   delete_video env_ok visitor_state 1 =
     \<lparr>new_state = visitor_state, flashed = [], response = Redirect Admin_login\<rparr> \<and>
   toggle_featured env_ok visitor_state 1 =
     \<lparr>new_state = visitor_state, flashed = [], response = Redirect Admin_login\<rparr> \<and>
   videos visitor_state = [video_a, video_b]"
  using unauthenticated_requests_change_nothing [of visitor_state env_ok untitled_upload 1]
  by (simp add: visitor_state_def admin_state_def)

subsection \<open>C5: file first, then the row\<close>

text \<open>
  C5, as stated, fails in its "both or neither": the handler writes the file, then
  inserts, and cleans nothing up. When the \<open>INSERT\<close> raises after the write, the file is
  there (it was not before) and the table has no row for it; and when the write itself
  fails after two bytes, those two bytes are at the storage path, again with no row.
\<close>

theorem upload_orphan_file_counterexample:
  "files admin_state ''static/uploads/20240309_120000_clip.MP4'' = None \<and>
   upload_video env_db_down admin_state untitled_upload =
     \<lparr>new_state = admin_state\<lparr>files :=
        (files admin_state)(''static/uploads/20240309_120000_clip.MP4'' \<mapsto> ''DATA'')\<rparr>,
      flashed = [], response = Raised OperationalError\<rparr> \<and>
   upload_video env_disk_full admin_state untitled_upload =
     \<lparr>new_state = admin_state\<lparr>files :=
        (files admin_state)(''static/uploads/20240309_120000_clip.MP4'' \<mapsto> ''DA'')\<rparr>,
      flashed = [], response = Raised IOError\<rparr>"
  by (simp add: examples run_upload)

text \<open>
  C5, amended. The file write comes before the \<open>INSERT\<close>. When \<open>file.save\<close> raises, the
  \<open>INSERT\<close> is not reached: the table and its counter are unchanged, and the handler ends
  with the exception, leaving at the storage path what the failed write had written
  (nothing when the target could not be opened, else the bytes written so far). The
  table changes only by one appended row whose filename is the storage name, and then
  the file of that name has been written with the whole uploaded content, so the new row
  never references an unwritten file. When neither the write nor the database raises,
  the upload leaves either the unchanged state or both the row and its file. When the
  database raises after the write, the handler ends with that exception and the written
  file stays, with no row.
\<close>

theorem upload_write_before_insert:
  "(save_raises e \<longrightarrow>
      videos (new_state (upload_video e s req)) = videos s \<and>
      sqlite_sequence (new_state (upload_video e s req)) = sqlite_sequence s) \<and>
   (videos (new_state (upload_video e s req)) = videos s \<or>
    (\<exists>upl v. files_video req = Some upl \<and> \<not> save_raises e \<and>
       \<not> sqlite_read_raises e \<and> \<not> sqlite_write_raises e \<and>
       filename v = storage_name (now e) (fs_filename upl) \<and>
       videos (new_state (upload_video e s req)) = videos s @ [v] \<and>
       files (new_state (upload_video e s req)) =
         (files s)(os_path_join UPLOAD_FOLDER (filename v) \<mapsto> fs_content upl))) \<and>
   (\<not> save_raises e \<and> \<not> sqlite_read_raises e \<and> \<not> sqlite_write_raises e \<longrightarrow>
      new_state (upload_video e s req) = s \<or>
      (\<exists>upl v. files_video req = Some upl \<and>
         videos (new_state (upload_video e s req)) = videos s @ [v] \<and>
         files (new_state (upload_video e s req)) =
           (files s)(os_path_join UPLOAD_FOLDER (filename v) \<mapsto> fs_content upl))) \<and>
   (admin_logged_in s \<and> files_video req = Some up \<and> form req ''title'' = Some t \<and>
    allowed_file (fs_filename up) = Inr True \<and> \<not> save_raises e \<and>
    (sqlite_read_raises e \<or> sqlite_write_raises e) \<longrightarrow>
      upload_video e s req =
        \<lparr>new_state = s\<lparr>files := (files s)
           (os_path_join UPLOAD_FOLDER (storage_name (now e) (fs_filename up))
              \<mapsto> fs_content up)\<rparr>,
         flashed = [], response = Raised OperationalError\<rparr>) \<and>
   (admin_logged_in s \<and> files_video req = Some up \<and> form req ''title'' = Some t \<and>
    allowed_file (fs_filename up) = Inr True \<and> save_raises e \<longrightarrow>
      upload_video e s req =
        \<lparr>new_state =
           (case save_partial e of
              None \<Rightarrow> s
            | Some written \<Rightarrow>
                s\<lparr>files := (files s)
                  (os_path_join UPLOAD_FOLDER (storage_name (now e) (fs_filename up))
                     \<mapsto> written)\<rparr>),
         flashed = [], response = Raised IOError\<rparr>)"
proof -
  have 1: "save_raises e \<longrightarrow>
      videos (new_state (upload_video e s req)) = videos s \<and>
      sqlite_sequence (new_state (upload_video e s req)) = sqlite_sequence s"
    by (auto simp: upload_video_def Let_def split: option.splits sum.splits bool.splits)
  have 2: "videos (new_state (upload_video e s req)) = videos s \<or>
    (\<exists>upl v. files_video req = Some upl \<and> \<not> save_raises e \<and>
       \<not> sqlite_read_raises e \<and> \<not> sqlite_write_raises e \<and>
       filename v = storage_name (now e) (fs_filename upl) \<and>
       videos (new_state (upload_video e s req)) = videos s @ [v] \<and>
       files (new_state (upload_video e s req)) =
         (files s)(os_path_join UPLOAD_FOLDER (filename v) \<mapsto> fs_content upl))"
    by (auto simp: upload_video_def Let_def insert_video_def
          split: option.splits sum.splits bool.splits)
  have 3: "\<not> save_raises e \<and> \<not> sqlite_read_raises e \<and> \<not> sqlite_write_raises e \<longrightarrow>
      new_state (upload_video e s req) = s \<or>
      (\<exists>upl v. files_video req = Some upl \<and>
         videos (new_state (upload_video e s req)) = videos s @ [v] \<and>
         files (new_state (upload_video e s req)) =
           (files s)(os_path_join UPLOAD_FOLDER (filename v) \<mapsto> fs_content upl))"
    by (auto simp: upload_video_def Let_def insert_video_def
          split: option.splits sum.splits bool.splits)
  have ne: "fs_filename up \<noteq> []" if "allowed_file (fs_filename up) = Inr True"
    using that allowed_file_Nil by auto
  have 4: "admin_logged_in s \<and> files_video req = Some up \<and> form req ''title'' = Some t \<and>
    allowed_file (fs_filename up) = Inr True \<and> \<not> save_raises e \<and>
    (sqlite_read_raises e \<or> sqlite_write_raises e) \<longrightarrow>
      upload_video e s req =
        \<lparr>new_state = s\<lparr>files := (files s)
           (os_path_join UPLOAD_FOLDER (storage_name (now e) (fs_filename up))
              \<mapsto> fs_content up)\<rparr>,
         flashed = [], response = Raised OperationalError\<rparr>"
    using ne by (auto simp: upload_video_def Let_def)
  have 5: "admin_logged_in s \<and> files_video req = Some up \<and> form req ''title'' = Some t \<and>
    allowed_file (fs_filename up) = Inr True \<and> save_raises e \<longrightarrow>
      upload_video e s req =
        \<lparr>new_state =
           (case save_partial e of
              None \<Rightarrow> s
            | Some written \<Rightarrow>
                s\<lparr>files := (files s)
                  (os_path_join UPLOAD_FOLDER (storage_name (now e) (fs_filename up))
                     \<mapsto> written)\<rparr>),
         flashed = [], response = Raised IOError\<rparr>"
    using ne by (auto simp: upload_video_def Let_def)
  from 1 2 3 4 5 show ?thesis by (intro conjI)
qed

theorem upload_write_before_insert_witness:
  "save_raises env_disk_full \<and>
   videos (new_state (upload_video env_disk_full admin_state untitled_upload))
     = videos admin_state \<and>
   files (new_state (upload_video env_disk_full admin_state untitled_upload))
     ''static/uploads/20240309_120000_clip.MP4'' = Some ''DA'' \<and>
   \<not> save_raises env_ok \<and> \<not> sqlite_read_raises env_ok \<and> \<not> sqlite_write_raises env_ok \<and>
   map filename (videos (new_state (upload_video env_ok admin_state untitled_upload)))
     = [''a.mp4'', ''b.mp4'', ''20240309_120000_clip.MP4''] \<and>
   files (new_state (upload_video env_ok admin_state untitled_upload))
     ''static/uploads/20240309_120000_clip.MP4'' = Some ''DATA'' \<and>
   sqlite_write_raises env_db_down \<and> \<not> save_raises env_db_down \<and>
   videos (new_state (upload_video env_db_down admin_state untitled_upload))
     = videos admin_state \<and>
   files (new_state (upload_video env_db_down admin_state untitled_upload))
     ''static/uploads/20240309_120000_clip.MP4'' = Some ''DATA''"
  using upload_write_before_insert [of env_disk_full admin_state untitled_upload
          "\<lparr>fs_filename = ''clip.MP4'', fs_content = ''DATA''\<rparr>" "[]"]
        upload_write_before_insert [of env_ok admin_state untitled_upload
          "\<lparr>fs_filename = ''clip.MP4'', fs_content = ''DATA''\<rparr>" "[]"]
        upload_write_before_insert [of env_db_down admin_state untitled_upload
          "\<lparr>fs_filename = ''clip.MP4'', fs_content = ''DATA''\<rparr>" "[]"]
  by (simp add: examples run_upload)

subsection \<open>C6: delete\<close>

text \<open>
  C6, as stated, fails twice. For an id that is not in the table the handler flashes
  nothing and redirects to the dashboard, the same response as after a deletion: no
  NotFound is reported. And the deletion of the row does depend on the outcome of the
  file removal: when \<open>os.remove\<close> raises on the existing file of video 1, the handler
  ends with the exception and the row stays.
\<close>

theorem delete_missing_id_counterexample:
  "fetchone 99 (videos admin_state) = None \<and>
   delete_video env_ok admin_state 99 =
     \<lparr>new_state = admin_state, flashed = [], response = Redirect Admin_dashboard\<rparr> \<and>
   response (delete_video env_ok admin_state 1) = Redirect Admin_dashboard \<and>
   fetchone 1 (videos admin_state) = Some video_a \<and>
   files admin_state ''static/uploads/a.mp4'' = Some ''AAAA'' \<and>
   delete_video env_remove_denied admin_state 1 =
     \<lparr>new_state = admin_state, flashed = [], response = Raised IOError\<rparr>"
  by (simp add: examples delete_video_def fetchone_def os_path_join_def UPLOAD_FOLDER_def Let_def)

text \<open>
  C6, amended. In an admin's session, with distinct ids and a \<open>SELECT\<close> that answers, for
  the row with id \<open>X\<close>: the file removal comes first. When the file exists and
  \<open>os.remove\<close> raises, the handler ends with that exception and nothing is changed.
  Otherwise (the file is missing, which is no error, or it is removed) the file entry is
  gone; then, when the \<open>DELETE\<close> or its commit raises, the handler ends with that
  exception and the row stays, and when it does not, exactly that row is deleted, with
  the success message. For an id not in the table the state is unchanged and the handler
  redirects to the dashboard with no message.
\<close>

theorem delete_video_cases:
  assumes "admin_logged_in s" and "\<not> sqlite_read_raises e" and "primary_key s"
  shows "(\<forall>i < length (videos s). video_id (videos s ! i) = X \<longrightarrow>
            (if os_path_join UPLOAD_FOLDER (filename (videos s ! i)) \<in> dom (files s) \<and>
                remove_raises e
             then delete_video e s X =
                    \<lparr>new_state = s, flashed = [], response = Raised IOError\<rparr>
             else if sqlite_write_raises e
             then delete_video e s X =
                    \<lparr>new_state = s\<lparr>files :=
                       (files s)(os_path_join UPLOAD_FOLDER (filename (videos s ! i)) := None)\<rparr>,
                     flashed = [], response = Raised OperationalError\<rparr>
             else delete_video e s X =
                    \<lparr>new_state = s\<lparr>
                       videos := take i (videos s) @ drop (Suc i) (videos s),
                       files :=
                         (files s)(os_path_join UPLOAD_FOLDER (filename (videos s ! i)) := None)\<rparr>,
                     flashed = [(''Video deleted successfully!'', ''success'')],
                     response = Redirect Admin_dashboard\<rparr>)) \<and>
         (X \<notin> video_id ` set (videos s) \<longrightarrow>
            delete_video e s X =
              \<lparr>new_state = s, flashed = [], response = Redirect Admin_dashboard\<rparr>)"
proof (intro conjI allI impI)
  fix i
  assume i: "i < length (videos s)" and x: "video_id (videos s ! i) = X"
  let ?p = "os_path_join UPLOAD_FOLDER (filename (videos s ! i))"
  have f: "fetchone X (videos s) = Some (videos s ! i)"
    using fetchone_nth [OF assms(3) i] x by simp
  have d: "filter (\<lambda>v. video_id v \<noteq> X) (videos s) = take i (videos s) @ drop (Suc i) (videos s)"
    using filter_distinct_nth [of video_id "videos s" i] assms(3) i x by (simp add: primary_key_def)
  have m: "?p \<notin> dom (files s) \<Longrightarrow> (files s)(?p := None) = files s"
    by (auto simp: fun_eq_iff)
  show "if ?p \<in> dom (files s) \<and> remove_raises e
        then delete_video e s X = \<lparr>new_state = s, flashed = [], response = Raised IOError\<rparr>
        else if sqlite_write_raises e
        then delete_video e s X =
               \<lparr>new_state = s\<lparr>files := (files s)(?p := None)\<rparr>,
                flashed = [], response = Raised OperationalError\<rparr>
        else delete_video e s X =
               \<lparr>new_state = s\<lparr>videos := take i (videos s) @ drop (Suc i) (videos s),
                               files := (files s)(?p := None)\<rparr>,
                flashed = [(''Video deleted successfully!'', ''success'')],
                response = Redirect Admin_dashboard\<rparr>"
  proof (cases "?p \<in> dom (files s)")
    case True
    with assms(1,2) f d show ?thesis by (simp add: delete_video_def Let_def)
  next
    case False
    with assms(1,2) f d m show ?thesis by (simp add: delete_video_def Let_def)
  qed
next
  assume "X \<notin> video_id ` set (videos s)"
  then have "fetchone X (videos s) = None" by (rule fetchone_None)
  with assms(1,2) show "delete_video e s X =
      \<lparr>new_state = s, flashed = [], response = Redirect Admin_dashboard\<rparr>"
    by (simp add: delete_video_def)
qed

theorem delete_video_cases_witness:
  "admin_logged_in admin_state \<and> \<not> sqlite_read_raises env_remove_denied \<and>
   \<not> sqlite_read_raises env_db_down \<and> primary_key admin_state \<and>
   videos (new_state (delete_video env_ok admin_state 1)) = [video_b] \<and>
   files (new_state (delete_video env_ok admin_state 1)) ''static/uploads/a.mp4'' = None \<and>
   files admin_state ''static/uploads/b.mp4'' = None \<and> remove_raises env_remove_denied \<and>
   videos (new_state (delete_video env_remove_denied admin_state 2)) = [video_a] \<and>
   response (delete_video env_remove_denied admin_state 2) = Redirect Admin_dashboard \<and>
   delete_video env_remove_denied admin_state 1 =
     \<lparr>new_state = admin_state, flashed = [], response = Raised IOError\<rparr> \<and>
   sqlite_write_raises env_db_down \<and>
   videos (new_state (delete_video env_db_down admin_state 1)) = [video_a, video_b] \<and>
   files (new_state (delete_video env_db_down admin_state 1)) ''static/uploads/a.mp4'' = None \<and>
   new_state (delete_video env_ok admin_state 99) = admin_state"
  using delete_video_cases [of admin_state env_ok 1]
        delete_video_cases [of admin_state env_remove_denied 2]
        delete_video_cases [of admin_state env_remove_denied 1]
        delete_video_cases [of admin_state env_db_down 1]
        delete_video_cases [of admin_state env_ok 99]
  by (simp add: examples primary_key_def os_path_join_def UPLOAD_FOLDER_def
        All_less_Suc2 less_Suc_eq)

subsection \<open>C7: storage names of different seconds\<close>

text \<open>
  C7, as stated, fails: the prefix is the reading of the local clock, and a local clock
  that is set back shows the same reading in two different seconds. Two uploads of
  \<open>clip.MP4\<close> an hour apart (the dates of their rows are 300 and 3900) that read the same
  local time get the same storage name, and the second overwrites the file of the first.
\<close>

theorem storage_name_repeats_counterexample:
  "current_timestamp env_ok \<noteq> current_timestamp env_clock_set_back \<and>
   now env_ok = now env_clock_set_back \<and> valid_datetime (now env_ok) \<and>
   map filename (videos (new_state (upload_video env_clock_set_back
          (new_state (upload_video env_ok admin_state untitled_upload)) untitled_upload)))
     = [''a.mp4'', ''b.mp4'', ''20240309_120000_clip.MP4'', ''20240309_120000_clip.MP4''] \<and>
   map upload_date (videos (new_state (upload_video env_clock_set_back
          (new_state (upload_video env_ok admin_state untitled_upload)) untitled_upload)))
     = [100, 100, 300, 3900]"
  by (simp add: examples run_upload valid_datetime_def)

text \<open>
  C7, amended. The storage name is the 15 characters \<open>YYYYMMDD_HHMMSS\<close> of the reading
  of \<open>datetime.now()\<close>, an underscore, and the sanitized original name. For two valid
  readings (with a year of four digits) that differ in a field down to the second, the
  storage names differ, whatever the two original names are, and so also when they are
  the same.
\<close>

theorem storage_names_differ_across_seconds:
  assumes "valid_datetime d1" and "valid_datetime d2" and "\<not> same_second d1 d2"
  shows "storage_name d1 f1 = strftime_Ymd_HMS d1 @ ''_'' @ secure_filename f1 \<and>
         length (strftime_Ymd_HMS d1) = 15 \<and>
         storage_name d1 f1 \<noteq> storage_name d2 f2"
proof -
  have "storage_name d1 f1 \<noteq> storage_name d2 f2"
  proof
    assume "storage_name d1 f1 = storage_name d2 f2"
    then have "strftime_Ymd_HMS d1 @ (''_'' @ secure_filename f1)
             = strftime_Ymd_HMS d2 @ (''_'' @ secure_filename f2)"
      by (simp add: storage_name_def)
    then have "strftime_Ymd_HMS d1 = strftime_Ymd_HMS d2"
      using append_eq_append_conv [of "strftime_Ymd_HMS d1" "strftime_Ymd_HMS d2"]
      by (simp add: length_strftime)
    with assms show False by (auto dest: strftime_inj)
  qed
  then show ?thesis by (simp add: storage_name_def length_strftime)
qed

theorem storage_names_differ_across_seconds_witness:
  "valid_datetime noon \<and> valid_datetime noon_plus_1s \<and> \<not> same_second noon noon_plus_1s \<and>
   secure_filename ''clip.mp4'' = ''clip.mp4'' \<and>
   storage_name noon ''clip.mp4'' = ''20240309_120000_clip.mp4'' \<and>
   storage_name noon_plus_1s ''clip.mp4'' = ''20240309_120001_clip.mp4'' \<and>
   storage_name noon ''clip.mp4'' \<noteq> storage_name noon_plus_1s ''clip.mp4''"
  using storage_names_differ_across_seconds [of noon noon_plus_1s "''clip.mp4''" "''clip.mp4''"]
  by (simp add: examples run_name valid_datetime_def same_second_def)

subsection \<open>C8: toggle\<close>

text \<open>
  C8. In an admin's session, with distinct ids and a working database, toggling the id
  of the row at position \<open>i\<close> replaces that row by itself with \<open>featured\<close> negated and
  changes nothing else: the other rows, the other fields of the row, the counter, the
  files and the session stay.
\<close>

theorem toggle_featured_flips_one:
  assumes "admin_logged_in s" and "\<not> sqlite_read_raises e" and "\<not> sqlite_write_raises e"
      and "primary_key s"
      and "i < length (videos s)" and "video_id (videos s ! i) = X"
  shows "toggle_featured e s X =
           \<lparr>new_state = s\<lparr>videos := (videos s)[i := (videos s ! i)\<lparr>featured := \<not> featured (videos s ! i)\<rparr>]\<rparr>,
            flashed = [(''Video featured status updated!'', ''success'')],
            response = Redirect Admin_dashboard\<rparr>"
proof -
  let ?t = "(videos s ! i)\<lparr>featured := \<not> featured (videos s ! i)\<rparr>"
  have f: "fetchone X (videos s) = Some (videos s ! i)"
    using fetchone_nth [OF assms(4,5)] assms(6) by simp
  have "map (\<lambda>v. if video_id v = X then v\<lparr>featured := \<not> featured (videos s ! i)\<rparr> else v) (videos s)
        = (videos s)[i := ?t]"
  proof (rule nth_equalityI)
    show "length (map (\<lambda>v. if video_id v = X then v\<lparr>featured := \<not> featured (videos s ! i)\<rparr> else v) (videos s))
        = length ((videos s)[i := ?t])" by simp
  next
    fix j assume "j < length (map (\<lambda>v. if video_id v = X then v\<lparr>featured := \<not> featured (videos s ! i)\<rparr> else v) (videos s))"
    then have j: "j < length (videos s)" by simp
    have "video_id (videos s ! j) = X \<longleftrightarrow> j = i"
      using assms(4,5,6) j unfolding primary_key_def
      by (metis length_map nth_eq_iff_index_eq nth_map)
    then show "map (\<lambda>v. if video_id v = X then v\<lparr>featured := \<not> featured (videos s ! i)\<rparr> else v) (videos s) ! j
        = (videos s)[i := ?t] ! j"
      using j by (auto simp: nth_list_update)
  qed
  then show ?thesis
    using assms(1,2,3) f by (simp add: toggle_featured_def)
qed

theorem toggle_featured_flips_one_witness:
  "admin_logged_in curated_state \<and> \<not> sqlite_read_raises env_ok \<and>
   \<not> sqlite_write_raises env_ok \<and> primary_key curated_state \<and>
   (1::nat) < length (videos curated_state) \<and> video_id (videos curated_state ! 1) = 2 \<and>
   \<not> featured video_b \<and>
   new_state (toggle_featured env_ok curated_state 2) =
     curated_state\<lparr>videos := [video_a, video_b\<lparr>featured := True\<rparr>, video_c]\<rparr>"
  using toggle_featured_flips_one [of curated_state env_ok 1 2]
  by (simp add: examples primary_key_def)

subsection \<open>C9: featured and other listings\<close>

text \<open>
  C9. For every table, when the database answers: the featured list of the home page
  has at most three rows, all featured and all from the table; the featured list of the
  highlights page is the featured rows of the table and its other list is the rows that
  are not featured; and each of these lists, and the recent list, is in descending
  \<open>upload_date\<close> order.
\<close>

theorem listings_only_featured:
  assumes "sql_order_by (order_by_upload_date_desc e)" and "\<not> sqlite_read_raises e"
  shows "\<exists>fv rv fh oh.
     home e s = Render_template ''home.html''
                  [(''featured_videos'', fv), (''recent_videos'', rv)] \<and>
     highlights e s = Render_template ''highlights.html''
                  [(''featured_videos'', fh), (''other_videos'', oh)] \<and>
     (\<forall>v\<in>set fv. featured v \<and> v \<in> set (videos s)) \<and> length fv \<le> 3 \<and>
     mset fh = mset (filter (\<lambda>v. featured v) (videos s)) \<and>
     mset oh = mset (filter (\<lambda>v. \<not> featured v) (videos s)) \<and>
     (\<forall>v\<in>set fh. featured v) \<and> (\<forall>v\<in>set oh. \<not> featured v) \<and>
     sorted_wrt (\<lambda>a b. upload_date b \<le> upload_date a) fv \<and>
     sorted_wrt (\<lambda>a b. upload_date b \<le> upload_date a) rv \<and>
     sorted_wrt (\<lambda>a b. upload_date b \<le> upload_date a) fh \<and>
     sorted_wrt (\<lambda>a b. upload_date b \<le> upload_date a) oh"
proof -
  let ?ob = "order_by_upload_date_desc e"
  let ?fv = "take 3 (?ob (filter (\<lambda>v. featured v) (videos s)))"
  let ?rv = "take 6 (?ob (videos s))"
  let ?fh = "?ob (filter (\<lambda>v. featured v) (videos s))"
  let ?oh = "?ob (filter (\<lambda>v. \<not> featured v) (videos s))"
  have 1: "home e s = Render_template ''home.html''
                  [(''featured_videos'', ?fv), (''recent_videos'', ?rv)]"
    using assms(2) by (simp add: home_def format_videos_def Let_def)
  have 2: "highlights e s = Render_template ''highlights.html''
                  [(''featured_videos'', ?fh), (''other_videos'', ?oh)]"
    using assms(2) by (simp add: highlights_def format_videos_def Let_def)
  have 3: "\<forall>v\<in>set ?fv. featured v \<and> v \<in> set (videos s)"
    using sql_order_by_set [OF assms(1)] by (auto dest: in_set_takeD)
  have 4: "length ?fv \<le> 3" by simp
  have 5: "mset ?fh = mset (filter (\<lambda>v. featured v) (videos s))"
          "mset ?oh = mset (filter (\<lambda>v. \<not> featured v) (videos s))"
    using sql_order_by_mset [OF assms(1)] by simp_all
  have 6: "\<forall>v\<in>set ?fh. featured v" "\<forall>v\<in>set ?oh. \<not> featured v"
    using sql_order_by_set [OF assms(1)] by auto
  have 7: "sorted_wrt (\<lambda>a b. upload_date b \<le> upload_date a) ?fv"
          "sorted_wrt (\<lambda>a b. upload_date b \<le> upload_date a) ?rv"
          "sorted_wrt (\<lambda>a b. upload_date b \<le> upload_date a) ?fh"
          "sorted_wrt (\<lambda>a b. upload_date b \<le> upload_date a) ?oh"
    using sql_order_by_sorted [OF assms(1)] by (simp_all add: sorted_wrt_take)
  from 1 2 3 4 5 6 7 show ?thesis by blast
qed

theorem listings_only_featured_witness:
  "sql_order_by (order_by_upload_date_desc env_ok) \<and> \<not> sqlite_read_raises env_ok \<and>
   home env_ok curated_state = Render_template ''home.html''
     [(''featured_videos'', [video_c, video_a]),
      (''recent_videos'', [video_c, video_a, video_b])] \<and>
   highlights env_ok curated_state = Render_template ''highlights.html''
     [(''featured_videos'', [video_c, video_a]), (''other_videos'', [video_b])] \<and>
   featured video_c \<and> featured video_a \<and> \<not> featured video_b"
proof -
  have c: "sql_order_by (order_by_upload_date_desc env_ok)"
    using scan_order_sort_sql by (simp add: env_ok_def)
  have n: "\<not> sqlite_read_raises env_ok" by (simp add: env_ok_def)
  note listings_only_featured [OF c n, of curated_state]
  then show ?thesis using c n by (simp add: examples run_listing)
qed

subsection \<open>C10: the stored path stays in the upload folder\<close>

text \<open>
  C10. An upload writes at most one file, at \<open>UPLOAD_FOLDER\<close> joined with the storage
  name of the uploaded name (the whole content, or what a failed write left). The
  storage name is the timestamp prefix put before the already sanitized name; neither
  the sanitized name nor the storage name contains a \<open>/\<close>, so the path has exactly the
  components of the upload folder followed by the storage name. The example after the
  theorem runs the upload of \<open>../../etc/passwd.mp4\<close>, whose sanitized name is
  \<open>etc_passwd.mp4\<close>.
\<close>

theorem upload_path_inside_upload_folder:
  "(files (new_state (upload_video e s req)) = files s \<or>
    (\<exists>upl written. files_video req = Some upl \<and>
       (written = fs_content upl \<or> save_partial e = Some written) \<and>
       files (new_state (upload_video e s req)) =
         (files s)(os_path_join UPLOAD_FOLDER (storage_name (now e) (fs_filename upl))
                     \<mapsto> written))) \<and>
   storage_name d fname = strftime_Ymd_HMS d @ ''_'' @ secure_filename fname \<and>
   CHR ''/'' \<notin> set (secure_filename fname) \<and>
   CHR ''/'' \<notin> set (storage_name d fname) \<and>
   path_components (os_path_join UPLOAD_FOLDER (storage_name d fname)) =
     path_components UPLOAD_FOLDER @ [storage_name d fname]"
proof -
  have "files (new_state (upload_video e s req)) = files s \<or>
    (\<exists>upl written. files_video req = Some upl \<and>
       (written = fs_content upl \<or> save_partial e = Some written) \<and>
       files (new_state (upload_video e s req)) =
         (files s)(os_path_join UPLOAD_FOLDER (storage_name (now e) (fs_filename upl))
                     \<mapsto> written))"
    by (auto simp: upload_video_def Let_def insert_video_def
          split: option.splits sum.splits bool.splits)
  moreover have "CHR ''/'' \<notin> set (secure_filename fname)"
    using secure_filename_safe [of fname] slash_unsafe by auto
  ultimately show ?thesis
    by (simp add: storage_name_no_slash storage_name_components upload_folder_components)
       (simp add: storage_name_def)
qed

theorem upload_path_inside_upload_folder_witness:
  "secure_filename ''../../etc/passwd.mp4'' = ''etc_passwd.mp4'' \<and>
   storage_name noon ''../../etc/passwd.mp4'' = ''20240309_120000_etc_passwd.mp4'' \<and>
   files (new_state (upload_video env_ok admin_state traversal_upload)) =
     (files admin_state)(''static/uploads/20240309_120000_etc_passwd.mp4'' \<mapsto> ''ROOT'') \<and>
   files (new_state (upload_video env_disk_full admin_state traversal_upload)) =
     (files admin_state)(''static/uploads/20240309_120000_etc_passwd.mp4'' \<mapsto> ''DA'') \<and>
   path_components ''static/uploads/20240309_120000_etc_passwd.mp4'' =
     [''static'', ''uploads'', ''20240309_120000_etc_passwd.mp4'']"
  using upload_path_inside_upload_folder
          [of env_ok admin_state traversal_upload noon "''../../etc/passwd.mp4''"]
  by (simp add: examples run_upload path_components_def)

end
